theory Spec2Isabelle
  imports Main "HOL-Library.Sublist" "HOL-Library.Char_ord" "HOL-Library.List_Lexorder"
    "HOL-Library.Multiset"
begin

section \<open>Python text operations used by bibtex\_check.py\<close>

text \<open>
  A Python \<open>str\<close> is a sequence of code points. Here a \<^typ>\<open>char\<close> stands for one
  code point below 256 (ASCII and Latin-1, which holds the three characters the script
  names literally, U+00E4, U+00F6 and U+00FC), and \<^typ>\<open>string\<close> for a \<open>str\<close> over
  that range. Comparison of strings is Python's: by code point, lexicographically.
\<close>

definition py_ord :: "char \<Rightarrow> nat" where
  "py_ord c = of_char c"

definition is_space :: "char \<Rightarrow> bool" where
  \<comment> \<open>the code points below 256 that \<open>str.strip()\<close> and \<open>int()\<close> treat as whitespace\<close>
  "is_space c = (py_ord c \<in> {9, 10, 11, 12, 13, 28, 29, 30, 31, 32, 133, 160})"

definition is_upper :: "char \<Rightarrow> bool" where
  \<comment> \<open>the code points below 256 that \<open>str.lower()\<close> changes\<close>
  "is_upper c = ((65 \<le> py_ord c \<and> py_ord c \<le> 90) \<or> (192 \<le> py_ord c \<and> py_ord c \<le> 222 \<and> py_ord c \<noteq> 215))"

definition lower_char :: "char \<Rightarrow> char" where
  "lower_char c = (if is_upper c then char_of (py_ord c + 32) else c)"

definition py_lower :: "string \<Rightarrow> string" where
  "py_lower s = map lower_char s"

definition py_lstrip :: "string \<Rightarrow> string \<Rightarrow> string" where
  "py_lstrip chars s = dropWhile (\<lambda>c. c \<in> set chars) s"

definition py_rstrip :: "string \<Rightarrow> string \<Rightarrow> string" where
  "py_rstrip chars s = rev (dropWhile (\<lambda>c. c \<in> set chars) (rev s))"

definition py_strip :: "string \<Rightarrow> string \<Rightarrow> string" where
  "py_strip chars s = py_rstrip chars (py_lstrip chars s)"

definition py_strip_ws :: "string \<Rightarrow> string" where
  \<comment> \<open>\<open>s.strip()\<close> with no argument\<close>
  "py_strip_ws s = rev (dropWhile is_space (rev (dropWhile is_space s)))"

text \<open>
  \<open>s.split(sep)\<close> and \<open>s.replace(old, new)\<close> scan from the left and skip over each
  occurrence found. The script calls both with non-empty literals only (Python raises
  ValueError on an empty separator).
\<close>

fun py_split :: "string \<Rightarrow> string \<Rightarrow> string list" where
  "py_split sep [] = [[]]"
| "py_split sep (c # cs) =
     (if sep \<noteq> [] \<and> prefix sep (c # cs) then [] # py_split sep (drop (length sep - 1) cs)
      else (case py_split sep cs of p # ps \<Rightarrow> (c # p) # ps | [] \<Rightarrow> [[c]]))"

fun py_replace :: "string \<Rightarrow> string \<Rightarrow> string \<Rightarrow> string" where
  "py_replace old new [] = []"
| "py_replace old new (c # cs) =
     (if old \<noteq> [] \<and> prefix old (c # cs) then new @ py_replace old new (drop (length old - 1) cs)
      else c # py_replace old new cs)"

definition py_in :: "string \<Rightarrow> string \<Rightarrow> bool" where
  \<comment> \<open>\<open>x in s\<close> on strings: \<open>x\<close> occurs in \<open>s\<close> as a contiguous piece\<close>
  "py_in x s = sublist x s"

function py_str :: "nat \<Rightarrow> string" where
  "py_str n = (if n < 10 then [char_of (48 + n)] else py_str (n div 10) @ [char_of (48 + n mod 10)])"
  by pat_completeness auto
termination
  by (relation "measure id") auto

declare py_str.simps [simp del]

text \<open>
  \<open>int(s)\<close> in base 10: whitespace around the number is skipped, one sign is allowed, and
  the digits may be grouped by single underscores. The whitespace of \<open>int\<close> is not that of
  \<open>str.strip()\<close>: U+001C to U+001F are not skipped. \<open>lim\<close> is the interpreter's limit on
  the number of digits of the text (\<open>sys.get_int_max_str_digits()\<close>, 4300 unless set
  otherwise; it is 0 or at least 640, and 0, as in interpreters that have no such limit,
  switches it off); underscores, sign and whitespace do not count as digits. \<open>None\<close> is
  the ValueError.
\<close>

definition is_int_space :: "char \<Rightarrow> bool" where
  "is_int_space c = (py_ord c \<in> {9, 10, 11, 12, 13, 32, 133, 160})"

definition is_digit :: "char \<Rightarrow> bool" where
  "is_digit c = (48 \<le> py_ord c \<and> py_ord c \<le> 57)"

definition digit_val :: "char \<Rightarrow> nat" where
  "digit_val c = py_ord c - 48"

fun digits_value :: "nat \<Rightarrow> string \<Rightarrow> nat option" where
  "digits_value acc [] = Some acc"
| "digits_value acc [c] = (if is_digit c then Some (10 * acc + digit_val c) else None)"
| "digits_value acc (c # d # ds) =
     (if is_digit c then digits_value (10 * acc + digit_val c) (d # ds)
      else if c = CHR ''_'' \<and> is_digit d then digits_value (10 * acc + digit_val d) ds
      else None)"

definition py_int :: "nat \<Rightarrow> string \<Rightarrow> int option" where
  "py_int lim s =
     (let t = rev (dropWhile is_int_space (rev (dropWhile is_int_space s)));
          neg = (case t of [] \<Rightarrow> False | c # cs \<Rightarrow> c = CHR ''-'');
          body = (case t of [] \<Rightarrow> [] | c # cs \<Rightarrow> if c = CHR ''-'' \<or> c = CHR ''+'' then cs else t)
      in case body of
           [] \<Rightarrow> None
         | d # ds \<Rightarrow>
             if \<not> is_digit d then None
             else if 0 < lim \<and> lim < length (filter is_digit body) then None
             else map_option (\<lambda>n. if neg then - int n else int n) (digits_value (digit_val d) ds))"

definition is_punctuation :: "char \<Rightarrow> bool" where
  \<comment> \<open>membership in \<open>string.punctuation\<close>\<close>
  "is_punctuation c =
     ((33 \<le> py_ord c \<and> py_ord c \<le> 47) \<or> (58 \<le> py_ord c \<and> py_ord c \<le> 64) \<or>
      (91 \<le> py_ord c \<and> py_ord c \<le> 96) \<or> (123 \<le> py_ord c \<and> py_ord c \<le> 126))"

definition nl :: string where
  "nl = [CHR 0x0A]"

definition sq :: string where
  \<comment> \<open>the apostrophe\<close>
  "sq = [CHR 0x27]"

section \<open>Data model\<close>

text \<open>
  The script keeps its messages as plain strings and counts them in four separate
  counters. In the model every message carries the category of the counter that the
  script increments beside the \<open>append\<close>; \<open>Advisory\<close> marks the one message that is
  appended without any counter.
\<close>

datatype category = MissingField | FlawedName | WrongType | NonUniqueId | Advisory

datatype requirement = FieldList "string list" | AliasOf string

type_synonym schema = "string \<rightharpoonup> requirement"

datatype error = IndexError | KeyError | NameError | OverflowError

datatype date_outcome = Parsed | ParseValueError | ParseOverflowError

text \<open>
  An element of the script's list \<open>problems\<close> is the HTML text of one record. The model
  keeps the values that text is built from; \<open>render\<close> below is the script's
  concatenation.
\<close>

record entry =
  entry_id :: string
  entry_type :: string
  entry_title :: string
  entry_article_id :: string
  entry_subproblems :: "(category \<times> string) list"
  entry_text :: string

text \<open>
  What the run reads from outside: the schema (built in, or loaded from the config
  file), the identifiers of the aux file, the console switch, the calendar year of
  \<open>datetime.now()\<close>, the interpreter's limit on the digits of an integer text, and the
  two library functions \<open>unidecode\<close> and \<open>dateutil.parser.parse\<close>. Of the parser only the
  outcome matters: it returns, or it raises ValueError (its ParserError is one), which
  the script catches, or it raises OverflowError, which the script does not catch.
\<close>

record config =
  requiredFields :: schema
  used_cits :: "string set"
  toconsole :: bool
  this_year :: nat
  unidecode :: "string \<Rightarrow> string"
  parse_date :: "string \<Rightarrow> date_outcome"
  int_max_str_digits :: nat

record state =
  completeEntry :: string
  currentId :: string
  citations :: "string list"
  currentType :: string
  currentArticleId :: string
  currentTitle :: string
  fields_list :: "string list"
  problems :: "entry list"
  subproblems :: "(category \<times> string) list"
  counterMissingFields :: nat
  counterFlawedNames :: nat
  counterWrongTypes :: nat
  counterNonUniqueId :: nat
  lineNo :: nat
  console :: "string list"

definition citeulikeUsername :: string where
  "citeulikeUsername = []"

definition citeulikeHref :: string where
  "citeulikeHref = ''http://www.citeulike.org/user/'' @ citeulikeUsername @ ''/article/''"

definition scholarHref :: string where
  "scholarHref = ''http://scholar.google.de/scholar?hl=en&q=''"

definition googleHref :: string where
  "googleHref = ''https://duckduckgo.com/?q=''"

definition dblpHref :: string where
  "dblpHref = ''http://dblp.org/search/index.php#query=''"

definition default_requiredFields :: schema where
  "default_requiredFields = map_of
     [(''article'', FieldList [''author'', ''title'', ''journal'', ''year'', ''volume'']),
      (''book'', FieldList [''author/editor'', ''title'', ''publisher'', ''year'']),
      (''booklet'', FieldList [''author/editor'', ''title'', ''year'', ''howpublished'']),
      (''conference'', AliasOf ''inproceedings''),
      (''inbook'', FieldList [''author/editor'', ''title'', ''chapter/pages'', ''publisher'', ''year'']),
      (''incollection'', FieldList [''author'', ''title'', ''booktitle'', ''publisher'', ''year'']),
      (''inproceedings'', FieldList [''author'', ''title'', ''booktitle'', ''year'']),
      (''manual'', FieldList [''title'', ''year'']),
      (''mastersthesis'', FieldList [''author'', ''title'', ''school'', ''year'']),
      (''misc'', FieldList [''author/organization'', ''title'', ''year'']),
      (''phdthesis'', FieldList [''author'', ''title'', ''school'', ''year'']),
      (''proceedings'', FieldList [''title'', ''year'']),
      (''techreport'', FieldList [''author'', ''title'', ''institution'', ''year'']),
      (''unpublished'', FieldList [''author'', ''title'', ''note'', ''year'']),
      (''electronic'', FieldList [''author/organization'', ''title'', ''url'', ''year'']),
      (''standard'', FieldList [''title'', ''organization/institution'']),
      (''patent'', FieldList [''nationality'', ''number'', ''year/yearfiled''])]"

section \<open>The usage set\<close>

text \<open>
  \<open>line.split("{")[1]\<close> raises IndexError on a citation line without a brace; only
  IOError is caught, so the error ends the run. \<open>None\<close> as input is the aux file that
  cannot be opened.
\<close>

definition aux_line :: "string \<Rightarrow> string set \<Rightarrow> error + string set" where
  "aux_line line used =
     (if prefix (CHR 0x5C # ''citation'') line then
        (case py_split ''{'' line of
           _ # x # _ \<Rightarrow>
             Inr (used \<union> set (filter (\<lambda>cit. cit \<noteq> []) (py_split '', '' (py_rstrip (''} '' @ nl) x))))
         | _ \<Rightarrow> Inl IndexError)
      else Inr used)"

fun aux_lines :: "string list \<Rightarrow> string set \<Rightarrow> error + string set" where
  "aux_lines [] used = Inr used"
| "aux_lines (l # ls) used =
     (case aux_line l used of Inl e \<Rightarrow> Inl e | Inr used' \<Rightarrow> aux_lines ls used')"

definition read_aux :: "string list option \<Rightarrow> error + string set" where
  "read_aux aux = (case aux of None \<Rightarrow> Inr {} | Some ls \<Rightarrow> aux_lines ls {})"

section \<open>The rule engine\<close>

definition in_scope :: "config \<Rightarrow> state \<Rightarrow> bool" where
  \<comment> \<open>\<open>currentId in used_cits or not used_cits\<close>\<close>
  "in_scope cfg s = (currentId s \<in> used_cits cfg \<or> used_cits cfg = {})"

definition count_problem :: "category \<Rightarrow> state \<Rightarrow> state" where
  "count_problem cat s =
     (case cat of
        MissingField \<Rightarrow> s\<lparr>counterMissingFields := counterMissingFields s + 1\<rparr>
      | FlawedName \<Rightarrow> s\<lparr>counterFlawedNames := counterFlawedNames s + 1\<rparr>
      | WrongType \<Rightarrow> s\<lparr>counterWrongTypes := counterWrongTypes s + 1\<rparr>
      | NonUniqueId \<Rightarrow> s\<lparr>counterNonUniqueId := counterNonUniqueId s + 1\<rparr>
      | Advisory \<Rightarrow> s)"

definition add_problem :: "category \<Rightarrow> string \<Rightarrow> state \<Rightarrow> state" where
  \<comment> \<open>\<open>subproblems.append(msg)\<close> followed by the increment of one counter\<close>
  "add_problem cat msg s = count_problem cat (s\<lparr>subproblems := subproblems s @ [(cat, msg)]\<rparr>)"

text \<open>
  The alias loop \<open>while isinstance(requiredFields[currentType], str)\<close>: a missing key
  raises KeyError, a field list ends the loop, an alias is followed. Nothing bounds the
  loop, so the result is an option and \<open>None\<close> is the run that does not return.
\<close>

partial_function (option) resolve_type :: "schema \<Rightarrow> string \<Rightarrow> (error + string \<times> string list) option" where
  "resolve_type rf t =
     (case rf t of
        None \<Rightarrow> Some (Inl KeyError)
      | Some (FieldList specs) \<Rightarrow> Some (Inr (t, specs))
      | Some (AliasOf t') \<Rightarrow> resolve_type rf t')"

declare resolve_type.simps [code]

definition satisfied :: "string list \<Rightarrow> string \<Rightarrow> bool" where
  \<comment> \<open>\<open>any(f in fields for f in field.split("/"))\<close>\<close>
  "satisfied fs field = list_ex (\<lambda>f. f \<in> set fs) (py_split ''/'' field)"

definition check_required :: "config \<Rightarrow> state \<Rightarrow> (error + state) option" where
  "check_required cfg s =
     (if requiredFields cfg (currentType s) \<noteq> None then
        (case resolve_type (requiredFields cfg) (currentType s) of
           None \<Rightarrow> None
         | Some (Inl e) \<Rightarrow> Some (Inl e)
         | Some (Inr (t, specs)) \<Rightarrow>
             Some (Inr (fold
               (\<lambda>field s'. if \<not> satisfied (fields_list s') field
                  then add_problem MissingField (currentType s' @ '': missing field '' @ sq @ field @ sq) s'
                  else s')
               specs (s\<lparr>currentType := t\<rparr>))))
      else Some (Inr
        (if currentType s \<noteq> [] \<and> currentType s \<noteq> ''comment''
         then s\<lparr>console := console s @ [''WARNING: Ignoring unspecified entry type '' @ currentType s]\<rparr>
         else s)))"

definition check_urldate_given :: "state \<Rightarrow> state" where
  "check_urldate_given s =
     (if ''url'' \<in> set (fields_list s) \<and> ''urldate'' \<notin> set (fields_list s)
      then add_problem MissingField ''missing field 'urldate' when 'url' is given'' s else s)"

definition check_url_and_doi :: "state \<Rightarrow> state" where
  "check_url_and_doi s =
     (if ''url'' \<in> set (fields_list s) \<and> ''doi'' \<in> set (fields_list s)
      then add_problem FlawedName ''both 'url' and 'doi' given - only one recommended'' s else s)"

definition make_entry :: "state \<Rightarrow> entry" where
  "make_entry s =
     \<lparr>entry_id = currentId s, entry_type = currentType s, entry_title = currentTitle s,
      entry_article_id = currentArticleId s, entry_subproblems = subproblems s,
      entry_text = completeEntry s\<rparr>"

definition render :: "entry \<Rightarrow> string" where
  "render e =
     (let cleanedTitle = filter (\<lambda>c. \<not> is_punctuation c) (entry_title e) in
      ''<div id='' @ sq @ entry_id e @ sq @ '' class='problem severe'' @
        py_str (length (entry_subproblems e)) @ sq @ ''>'' @
      ''<h2>'' @ entry_id e @ '' ('' @ entry_type e @ '')</h2> '' @
      ''<div class='links'>'' @
      (if citeulikeUsername \<noteq> []
       then ''<a href='' @ sq @ citeulikeHref @ entry_article_id e @ sq @ '' target='_blank'>CiteULike</a>''
       else []) @
      '' | <a href='' @ sq @ scholarHref @ cleanedTitle @ sq @ '' target='_blank'>Scholar</a>'' @
      '' | <a href='' @ sq @ googleHref @ cleanedTitle @ sq @ '' target='_blank'>Google</a>'' @
      '' | <a href='' @ sq @ dblpHref @ cleanedTitle @ sq @ '' target='_blank'>DBLP</a>'' @
      ''</div>'' @
      ''<div class='reference'>'' @ entry_title e @ ''</div>'' @
      ''<ul>'' @
      concat (map (\<lambda>p. ''<li>'' @ snd p @ ''</li>'') (entry_subproblems e)) @
      ''</ul>'' @
      ''<form class='problem_control'><label>checked</label><input type='checkbox' class='checked'/></form>'' @
      ''<div class='bibtex_toggle'>Current BibTeX Entry</div>'' @
      ''<div class='bibtex'>'' @ entry_text e @ ''</div>'' @
      ''</div>'')"

definition emit :: "config \<Rightarrow> state \<Rightarrow> state" where
  "emit cfg s =
     (if in_scope cfg s then
        s\<lparr>problems := problems s @ [make_entry s],
          console := console s @
            (if toconsole cfg
             then map (\<lambda>p. ''PROBLEM: '' @ currentId s @ '' - '' @ snd p) (subproblems s)
             else [])\<rparr>
      else s)"

definition finalize :: "config \<Rightarrow> state \<Rightarrow> (error + state) option" where
  \<comment> \<open>the part of the \<open>@\<close> branch that deals with the record read so far\<close>
  "finalize cfg s =
     (case (if in_scope cfg s then check_required cfg s else Some (Inr (s\<lparr>subproblems := []\<rparr>))) of
        None \<Rightarrow> None
      | Some (Inl e) \<Rightarrow> Some (Inl e)
      | Some (Inr s1) \<Rightarrow> Some (Inr (emit cfg (check_url_and_doi (check_urldate_given s1)))))"

definition start_record :: "string \<Rightarrow> state \<Rightarrow> error + state" where
  \<comment> \<open>the rest of the \<open>@\<close> branch: the new record's identifier and type\<close>
  "start_record line s =
     (case py_split ''{'' line of
        t # x # _ \<Rightarrow>
          (let cid = py_strip_ws (py_lower (py_rstrip ('','' @ nl) x));
               s1 = s\<lparr>fields_list := [], subproblems := [], currentId := cid\<rparr>;
               s2 = (if cid \<in> set (citations s1)
                     then add_problem NonUniqueId (''non-unique id: '' @ sq @ cid @ sq) s1
                     else s1\<lparr>citations := citations s1 @ [cid]\<rparr>);
               s3 = s2\<lparr>currentType := py_lower (py_strip ''@ '' t), completeEntry := line @ ''<br />''\<rparr>
           in Inr (if cid = []
                   then add_problem FlawedName
                          (''line '' @ py_str (lineNo s3) @ '': missing bibkey for '' @ currentType s3 @ '' found'') s3
                   else s3))
      | _ \<Rightarrow> Inl IndexError)"

subsection \<open>Field rules\<close>

definition first_author_lastname :: "string \<Rightarrow> string" where
  "first_author_lastname firstAuthor =
     (if CHR '','' \<in> set firstAuthor
      then py_strip (''{} ,'' @ nl) (hd (py_split '','' firstAuthor))
      else py_strip (''{} ,'' @ nl) (last (py_split '' '' firstAuthor)))"

definition normalize_lastname :: "(string \<Rightarrow> string) \<Rightarrow> string \<Rightarrow> string" where
  \<comment> \<open>the two assignments to \<open>firstAuthorLastname\<close> after the split; the first argument is \<open>unidecode\<close>\<close>
  "normalize_lastname ud n =
     py_replace sq [] (py_replace ''.'' [] (py_replace '' '' [] (py_lower (ud
       (py_replace [CHR 0xFC] ''ue'' (py_replace [CHR 0xF6] ''oe'' (py_replace [CHR 0xE4] ''ae'' n)))))))"

text \<open>
  The author rule. The script also binds \<open>currentAuthor\<close> to a \<open>filter\<close> object that is
  never read; it has no effect and is left out.
\<close>

definition check_author :: "config \<Rightarrow> string \<Rightarrow> state \<Rightarrow> state" where
  "check_author cfg v s =
     (let authors = py_split '' and '' v;
          s1 = fold (\<lambda>a s'. if count_list a (CHR '','') > 1
                     then add_problem FlawedName
                            (''flawed name: author with more than 1 comma found '' @ sq @ v @ sq) s'
                     else s') authors s;
          s2 = (if CHR ''{'' \<in> set v \<or> CHR ''}'' \<in> set v
                then add_problem FlawedName ''authors field has curly braces {} - not needed'' s1
                else s1);
          firstAuthorLastname = normalize_lastname (unidecode cfg) (first_author_lastname (hd authors))
      in if \<not> py_in firstAuthorLastname (currentId s2) \<and>
            \<not> py_in (py_replace ''-'' [] firstAuthorLastname) (currentId s2)
         then add_problem FlawedName
                (''first authors last name '' @ sq @ firstAuthorLastname @ sq @ '' not part of bib-key'') s2
         else s2)"

definition minyear :: nat where
  "minyear = 1900"

definition maxyear :: "config \<Rightarrow> nat" where
  "maxyear cfg = this_year cfg + 1"

definition check_year_range :: "config \<Rightarrow> string \<Rightarrow> state \<Rightarrow> state" where
  \<comment> \<open>the \<open>try\<close> block: \<open>None\<close> of \<open>py_int\<close> is the ValueError that the \<open>except\<close> catches\<close>
  "check_year_range cfg v s =
     (case py_int (int_max_str_digits cfg) v of
        Some y \<Rightarrow>
          if \<not> (int minyear < y \<and> y \<le> int (maxyear cfg))
          then add_problem FlawedName
                 (''year must be in range of ('' @ py_str minyear @ '', '' @ py_str (maxyear cfg) @ '')'') s
          else s
      | None \<Rightarrow> add_problem FlawedName (''failed to parse year '' @ sq @ v @ sq) s)"

definition check_year :: "config \<Rightarrow> string \<Rightarrow> state \<Rightarrow> state" where
  "check_year cfg v s =
     (let s1 = check_year_range cfg v s
      in if \<not> py_in v (currentId s1) then add_problem FlawedName ''year is not part of bib-key'' s1 else s1)"

definition check_pages :: "string \<Rightarrow> state \<Rightarrow> state" where
  "check_pages v s =
     (if prefix ''1--'' v
      then add_problem Advisory
             (''pages '' @ sq @ v @ sq @
              '' is most likey not correct: check that your reference really starts on page 1'') s
      else s)"

definition check_urldate :: "config \<Rightarrow> string \<Rightarrow> state \<Rightarrow> error + state" where
  "check_urldate cfg v s =
     (case parse_date cfg v of
        Parsed \<Rightarrow> Inr s
      | ParseValueError \<Rightarrow>
          Inr (add_problem FlawedName
                 (''urldate '' @ sq @ v @ sq @ '' is not formatted according to ISO 8601'') s)
      | ParseOverflowError \<Rightarrow> Inl OverflowError)"

text \<open>
  The \<open>doi\<close> rule appends its message and then increments \<open>counterDocumentLinkErrors\<close>,
  a name that is bound nowhere in the script: the statement raises NameError, which
  nothing catches.
\<close>

definition check_doi :: "string \<Rightarrow> state \<Rightarrow> error + state" where
  "check_doi v s =
     (if prefix ''http'' v then Inl NameError else Inr s)"

definition check_proceedings_pages :: "string \<Rightarrow> state \<Rightarrow> state" where
  "check_proceedings_pages field s =
     (if currentType s = ''proceedings'' \<and> field = ''pages''
      then add_problem WrongType
             ''wrong type: maybe should be 'inproceedings' because entry has page numbers'' s
      else s)"

definition check_journal_abbrev :: "string \<Rightarrow> string \<Rightarrow> string \<Rightarrow> state \<Rightarrow> state" where
  "check_journal_abbrev line field v s =
     (if currentType s = ''article'' \<and> field = ''journal'' \<and> CHR ''.'' \<in> set line
      then add_problem FlawedName (''flawed name: abbreviated journal title '' @ sq @ v @ sq) s
      else s)"

definition check_field :: "config \<Rightarrow> string \<Rightarrow> state \<Rightarrow> error + state" where
  \<comment> \<open>the body of \<open>if "=" in line\<close>\<close>
  "check_field cfg line s =
     (case py_split ''='' line of
        f # v' # _ \<Rightarrow>
          (let field = py_lower (py_strip_ws f);
               s1 = s\<lparr>fields_list := fields_list s @ [field]\<rparr>;
               v = py_strip (''{} ,'' @ nl) v';
               s2 = (if v = ''null''
                     then add_problem MissingField (''value of field '' @ field @ '' is null'') s1 else s1);
               s3 = (if field = ''author'' then check_author cfg v s2 else s2);
               s4 = (if field = ''year'' then check_year cfg v s3 else s3);
               s5 = (if field = ''pages'' then check_pages v s4 else s4)
           in case (if field = ''urldate'' then check_urldate cfg v s5 else Inr s5) of
                Inl e \<Rightarrow> Inl e
              | Inr s6 \<Rightarrow>
                  (let s7 = (if field = ''citeulike-article-id'' then s6\<lparr>currentArticleId := v\<rparr> else s6);
                       s8 = (if field = ''title''
                             then s7\<lparr>currentTitle := filter (\<lambda>c. c \<noteq> CHR ''{'' \<and> c \<noteq> CHR ''}'') v\<rparr>
                             else s7)
                   in case (if field = ''doi'' then check_doi v s8 else Inr s8) of
                        Inl e \<Rightarrow> Inl e
                      | Inr s9 \<Rightarrow>
                          Inr (check_journal_abbrev line field v (check_proceedings_pages field s9))))
      | _ \<Rightarrow> Inl IndexError)"

definition content_line :: "config \<Rightarrow> string \<Rightarrow> state \<Rightarrow> error + state" where
  \<comment> \<open>the \<open>else\<close> branch of the loop body\<close>
  "content_line cfg line s =
     (let s1 = (if line \<noteq> [] then s\<lparr>completeEntry := completeEntry s @ line @ ''<br />''\<rparr> else s)
      in if in_scope cfg s1 \<and> CHR ''='' \<in> set line then check_field cfg line s1 else Inr s1)"

section \<open>The parse loop\<close>

definition step :: "config \<Rightarrow> state \<Rightarrow> string \<Rightarrow> (error + state) option" where
  "step cfg s raw =
     (let s0 = s\<lparr>lineNo := lineNo s + 1\<rparr>;
          line = py_strip nl raw
      in if prefix ''@'' line then
           (case finalize cfg s0 of
              None \<Rightarrow> None
            | Some (Inl e) \<Rightarrow> Some (Inl e)
            | Some (Inr s1) \<Rightarrow> Some (start_record line s1))
         else Some (content_line cfg line s0))"

fun run_lines :: "config \<Rightarrow> state \<Rightarrow> string list \<Rightarrow> (error + state) option" where
  "run_lines cfg s [] = Some (Inr s)"
| "run_lines cfg s (l # ls) =
     (case step cfg s l of
        None \<Rightarrow> None
      | Some (Inl e) \<Rightarrow> Some (Inl e)
      | Some (Inr s') \<Rightarrow> run_lines cfg s' ls)"

definition initial_state :: state where
  "initial_state =
     \<lparr>completeEntry = [], currentId = [], citations = [], currentType = [],
      currentArticleId = [], currentTitle = [], fields_list = [], problems = [],
      subproblems = [], counterMissingFields = 0, counterFlawedNames = 0,
      counterWrongTypes = 0, counterNonUniqueId = 0, lineNo = 0, console = []\<rparr>"

definition run :: "config \<Rightarrow> string list \<Rightarrow> (error + state) option" where
  \<comment> \<open>the loop \<open>for line in fIn\<close> from the initial bindings; nothing follows it but \<open>fIn.close()\<close>\<close>
  "run cfg ls = run_lines cfg initial_state ls"

definition problemCount :: "state \<Rightarrow> nat" where
  "problemCount s =
     counterMissingFields s + counterFlawedNames s + counterWrongTypes s + counterNonUniqueId s"

definition report :: "state \<Rightarrow> entry list" where
  \<comment> \<open>\<open>problems.sort()\<close>: the list of HTML texts, sorted as strings\<close>
  "report s = sort_key render (problems s)"

section \<open>Observations\<close>

text \<open>
  The functions the properties below are stated with: what a run that returned shows,
  the counter of a category, and the number of messages of a category in the emitted
  entries and in the list held for the record being read.
\<close>

definition outcome :: "(state \<Rightarrow> 'a) \<Rightarrow> (error + state) option \<Rightarrow> (error + 'a) option" where
  "outcome f r = map_option (map_sum id f) r"

definition of_category :: "category \<Rightarrow> (category \<times> string) list \<Rightarrow> nat" where
  "of_category cat ps = length (filter (\<lambda>p. fst p = cat) ps)"

definition emitted :: "category \<Rightarrow> state \<Rightarrow> nat" where
  "emitted cat s = of_category cat (concat (map entry_subproblems (problems s)))"

definition pending :: "category \<Rightarrow> state \<Rightarrow> nat" where
  "pending cat s = of_category cat (subproblems s)"

definition counter_of :: "category \<Rightarrow> state \<Rightarrow> nat" where
  "counter_of cat s =
     (case cat of
        MissingField \<Rightarrow> counterMissingFields s
      | FlawedName \<Rightarrow> counterFlawedNames s
      | WrongType \<Rightarrow> counterWrongTypes s
      | NonUniqueId \<Rightarrow> counterNonUniqueId s
      | Advisory \<Rightarrow> 0)"

definition emitted_ids :: "state \<Rightarrow> string list" where
  "emitted_ids s = map entry_id (problems s)"

text \<open>
  What holds of the state throughout a run in which no record is in scope.
\<close>

definition out_of_scope_inv :: "state \<Rightarrow> bool" where
  "out_of_scope_inv s \<longleftrightarrow>
     (\<forall>c \<in> set (currentId s). \<not> is_upper c) \<and> problems s = [] \<and> fields_list s = [] \<and>
     counterMissingFields s = 0 \<and> counterWrongTypes s = 0 \<and> console s = [] \<and>
     (\<forall>p \<in> set (subproblems s). fst p = NonUniqueId \<or> fst p = FlawedName \<and> currentId s = [])"

definition is_ascii :: "string \<Rightarrow> bool" where
  "is_ascii s = list_all (\<lambda>c. py_ord c < 128) s"


text \<open>
  The surname key in the words of the specification: each of U+00E4, U+00F6, U+00FC
  becomes its digraph; the rest is transliterated; the text is lowercased; blanks,
  periods and apostrophes are taken out.
\<close>

definition digraph :: "char \<Rightarrow> string" where
  "digraph c =
     (if c = CHR 0xE4 then ''ae'' else if c = CHR 0xF6 then ''oe''
      else if c = CHR 0xFC then ''ue'' else [c])"

definition spec_surname_key :: "(string \<Rightarrow> string) \<Rightarrow> string \<Rightarrow> string" where
  "spec_surname_key transliterate n =
     filter (\<lambda>c. c \<noteq> CHR '' '' \<and> c \<noteq> CHR ''.'' \<and> c \<noteq> CHR 0x27)
       (map lower_char (transliterate (concat (map digraph n))))"

text \<open>
  What the report shows of an entry first: its identifier and its severity, the number
  of its problems.
\<close>

definition id_and_severity :: "entry \<Rightarrow> string \<times> nat" where
  "id_and_severity e = (entry_id e, length (entry_subproblems e))"

text \<open>
  For the examples, \<open>unidecode\<close> on the code points below 256 that they use: ASCII stays
  as it is, and the letters U+00C0 to U+00FF get the library's transliterations. The
  code points U+0080 to U+00BF are dropped; the library drops the controls and the soft
  hyphen among them and has texts of its own for the other signs, which no example
  holds.
\<close>

definition unidecode_latin1_char :: "char \<Rightarrow> string" where
  "unidecode_latin1_char c =
     (let n = py_ord c in
      if n < 128 then [c]
      else if n < 192 then []
      else if n \<le> 197 then ''A'' else if n = 198 then ''AE'' else if n = 199 then ''C''
      else if n \<le> 203 then ''E'' else if n \<le> 207 then ''I'' else if n = 208 then ''D''
      else if n = 209 then ''N'' else if n \<le> 214 then ''O'' else if n = 215 then ''x''
      else if n = 216 then ''O'' else if n \<le> 220 then ''U'' else if n = 221 then ''Y''
      else if n = 222 then ''Th'' else if n = 223 then ''ss''
      else if n \<le> 229 then ''a'' else if n = 230 then ''ae'' else if n = 231 then ''c''
      else if n \<le> 235 then ''e'' else if n \<le> 239 then ''i'' else if n = 240 then ''d''
      else if n = 241 then ''n'' else if n \<le> 246 then ''o'' else if n = 247 then ''/''
      else if n = 248 then ''o'' else if n \<le> 252 then ''u'' else if n = 253 then ''y''
      else if n = 254 then ''th'' else ''y'')"

definition unidecode_latin1 :: "string \<Rightarrow> string" where
  "unidecode_latin1 s = concat (map unidecode_latin1_char s)"

text \<open>
  A configuration for the examples: the built-in schema, the year 2024, the digit limit
  4300, the transliteration above, and a date parser that accepts its input (no example
  holds a \<open>urldate\<close> field).
\<close>

definition example_config :: "string set \<Rightarrow> config" where
  "example_config used =
     \<lparr>requiredFields = default_requiredFields, used_cits = used, toconsole = True,
      this_year = 2024, unidecode = unidecode_latin1, parse_date = (\<lambda>v. Parsed),
      int_max_str_digits = 4300\<rparr>"



definition smith2020foo :: "string list" where
  \<comment> \<open>the record of the end-to-end scenario, one field to a line\<close>
  "smith2020foo =
     [''@article{smith2020foo,'',
      ''  author = {Smith, John},'',
      ''  title = {Foo},'',
      ''  journal = {J. Bar},'',
      ''  year = {2020}'',
      ''}'']"

definition ampersand_lines :: "string list" where
  "ampersand_lines = [''@online{smith,'', ''@online{smith&jones,'', ''@online{adams,'', ''@online{z,'']"

definition dup_lines :: "string list" where
  "dup_lines =
     [''@online{dup,'', ''  url = {example.org/a},'', ''  doi = {10.1000/182},'',
      ''@online{dup,'', ''@online{z,'']"

definition repeated_id_lines :: "string list" where
  "repeated_id_lines = [''@misc{a,'', ''@misc{a,'', ''@misc{b,'', ''@misc{c,'']"

section \<open>Reading a run's outcome\<close>

lemma outcome_Inr_iff: "outcome f r = Some (Inr y) \<longleftrightarrow> (\<exists>s. r = Some (Inr s) \<and> f s = y)"
  by (cases r) (auto simp: outcome_def map_sum_def split: sum.splits)

section \<open>Characters and case\<close>

lemma py_ord_less_256: "py_ord c < 256"
proof -
  have "py_ord c mod 256 = py_ord c"
    by (simp add: py_ord_def)
  then show ?thesis
    by (metis mod_less_divisor zero_less_numeral)
qed

lemma lower_char_not_upper: "\<not> is_upper (lower_char c)"
  using py_ord_less_256 [of c]
  by (auto simp: lower_char_def is_upper_def py_ord_def)

lemma lower_char_ascii: "py_ord c < 128 \<Longrightarrow> py_ord (lower_char c) < 128"
  by (auto simp: lower_char_def is_upper_def py_ord_def)

lemma py_strip_ws_subset: "set (py_strip_ws s) \<subseteq> set s"
proof -
  have "set (dropWhile is_space (rev (dropWhile is_space s))) \<subseteq> set (rev (dropWhile is_space s))"
    by (rule set_dropWhileD [THEN subsetI])
  also have "\<dots> \<subseteq> set s"
    using set_dropWhileD [of _ is_space s] by auto
  finally show ?thesis
    by (simp add: py_strip_ws_def)
qed

lemma lowered_id_no_upper: "c \<in> set (py_strip_ws (py_lower x)) \<Longrightarrow> \<not> is_upper c"
  using py_strip_ws_subset [of "py_lower x"] lower_char_not_upper
  by (auto simp: py_lower_def)

section \<open>End of the input\<close>

lemma run_smith2020foo:
  "outcome (\<lambda>s. (emitted_ids s, counterMissingFields s, problemCount s))
     (run (example_config {}) smith2020foo) = Some (Inr ([[]], 0, 1))"
  by code_simp

lemma run_smith2020foo_next:
  "outcome (\<lambda>s. (emitted_ids s, counterMissingFields s))
     (run (example_config {}) (smith2020foo @ [''@misc{next,''])) =
   Some (Inr ([[], ''smith2020foo''], 1))"
  by code_simp

text \<open>
  C1. At the end of the input the last pending record should be finalized as on a
  boundary line. The script finalizes a record only when it reads the next line that
  starts with \<open>@\<close>, and nothing follows the loop: on the scenario record as the whole
  input, the only entry emitted is the one of the empty record before the first \<open>@\<close>
  line, the record's own entry is missing, and its missing \<open>volume\<close> is never counted
  (the one problem counted is the abbreviated journal title, found while reading). The
  same record followed by one more \<open>@\<close> line is emitted, with the missing field counted.
\<close>

theorem C1_last_record_not_finalized:
  "outcome emitted_ids (run (example_config {}) smith2020foo) = Some (Inr [[]]) \<and>
   outcome counterMissingFields (run (example_config {}) smith2020foo) = Some (Inr 0) \<and>
   outcome problemCount (run (example_config {}) smith2020foo) = Some (Inr 1) \<and>
   outcome emitted_ids (run (example_config {}) (smith2020foo @ [''@misc{next,''])) =
     Some (Inr [[], ''smith2020foo'']) \<and>
   outcome counterMissingFields (run (example_config {}) (smith2020foo @ [''@misc{next,''])) =
     Some (Inr 1)"
  using run_smith2020foo run_smith2020foo_next
  unfolding outcome_Inr_iff by auto

section \<open>The doi rule\<close>

text \<open>
  C3. A finding on one field should never halt the run. The \<open>doi\<close> rule does: a value
  that starts with \<open>http\<close> ends the run with NameError, so the fields and records after
  it are never read and no report is produced.
\<close>

theorem C3_doi_finding_aborts_run:
  "run (example_config {})
     [''@misc{a,'', ''  doi = {http://doi.org/10.1000/182},'', ''  title = {T},'', ''@misc{b,''] =
   Some (Inl NameError)"
  by code_simp

text \<open>
  C4. A \<open>doi\<close> value that starts with \<open>http\<close> should give exactly one flawed-name
  problem and one more in the flawed-name counter. In every state and under every
  configuration the rule gives no state at all: the field line raises NameError.
\<close>

theorem C4_doi_http_raises_NameError:
  "check_field cfg ''  doi = {http://doi.org/10.1000/182},'' s = Inl NameError"
proof -
  have sp: "py_split ''='' ''  doi = {http://doi.org/10.1000/182},'' =
              [''  doi '', '' {http://doi.org/10.1000/182},'']"
    by simp
  have f: "py_lower (py_strip_ws ''  doi '') = ''doi''"
    by (simp add: py_lower_def py_strip_ws_def is_space_def py_ord_def lower_char_def is_upper_def)
  have v: "py_strip (CHR ''{'' # CHR ''}'' # CHR '' '' # CHR '','' # nl)
             '' {http://doi.org/10.1000/182},'' = ''http://doi.org/10.1000/182''"
    by (simp add: py_strip_def py_lstrip_def py_rstrip_def nl_def)
  show ?thesis
    unfolding check_field_def sp
    by (simp add: f v check_doi_def Let_def)
qed

section \<open>Schema aliases\<close>























section \<open>Raising a problem\<close>

lemma add_problem_simps [simp]:
  "subproblems (add_problem c m s) = subproblems s @ [(c, m)]"
  "fields_list (add_problem c m s) = fields_list s"
  "currentType (add_problem c m s) = currentType s"
  "currentId (add_problem c m s) = currentId s"
  "problems (add_problem c m s) = problems s"
  "citations (add_problem c m s) = citations s"
  "lineNo (add_problem c m s) = lineNo s"
  "console (add_problem c m s) = console s"
  by (cases c; simp add: add_problem_def count_problem_def)+

lemma add_problem_counters [simp]:
  "counterMissingFields (add_problem c m s) = counterMissingFields s + (if c = MissingField then 1 else 0)"
  "counterFlawedNames (add_problem c m s) = counterFlawedNames s + (if c = FlawedName then 1 else 0)"
  "counterWrongTypes (add_problem c m s) = counterWrongTypes s + (if c = WrongType then 1 else 0)"
  "counterNonUniqueId (add_problem c m s) = counterNonUniqueId s + (if c = NonUniqueId then 1 else 0)"
  by (cases c; simp add: add_problem_def count_problem_def)+

section \<open>The required-fields check\<close>

lemma satisfied_iff: "satisfied fs field \<longleftrightarrow> (\<exists>f \<in> set (py_split ''/'' field). f \<in> set fs)"
  by (simp add: satisfied_def list_ex_iff)

lemma required_loop:
  "subproblems (fold (\<lambda>field s'. if \<not> satisfied (fields_list s') field
        then add_problem MissingField (currentType s' @ '': missing field '' @ sq @ field @ sq) s'
        else s') specs s) =
     subproblems s @ map (\<lambda>field. (MissingField, currentType s @ '': missing field '' @ sq @ field @ sq))
       (filter (\<lambda>field. \<not> satisfied (fields_list s) field) specs) \<and>
   counterMissingFields (fold (\<lambda>field s'. if \<not> satisfied (fields_list s') field
        then add_problem MissingField (currentType s' @ '': missing field '' @ sq @ field @ sq) s'
        else s') specs s) =
     counterMissingFields s + length (filter (\<lambda>field. \<not> satisfied (fields_list s) field) specs) \<and>
   currentType (fold (\<lambda>field s'. if \<not> satisfied (fields_list s') field
        then add_problem MissingField (currentType s' @ '': missing field '' @ sq @ field @ sq) s'
        else s') specs s) = currentType s \<and>
   fields_list (fold (\<lambda>field s'. if \<not> satisfied (fields_list s') field
        then add_problem MissingField (currentType s' @ '': missing field '' @ sq @ field @ sq) s'
        else s') specs s) = fields_list s"
proof (induction specs arbitrary: s)
  case Nil
  show ?case by simp
next
  case (Cons field specs)
  show ?case
  proof (cases "satisfied (fields_list s) field")
    case True
    then show ?thesis
      using Cons.IH [of s] by simp
  next
    case False
    then show ?thesis
      using Cons.IH [of "add_problem MissingField (currentType s @ '': missing field '' @ sq @ field @ sq) s"]
      by simp
  qed
qed

lemma resolve_type_Inr_in_schema:
  assumes "resolve_type rf t0 = Some (Inr (t, specs))"
  shows "rf t0 \<noteq> None"
proof
  assume "rf t0 = None"
  then have "resolve_type rf t0 = Some (Inl KeyError)"
    by (subst resolve_type.simps) simp
  with assms show False
    by simp
qed

text \<open>
  C6. For a record whose type resolves, through the aliases, to a type \<open>t\<close> of the schema
  with the field specs \<open>specs\<close>, the required-fields check raises one missing-field
  problem for each spec none of whose alternatives (the pieces between \<open>/\<close>) is among
  the record's observed field names, in the order of the specs, and counts each: the
  missing-fields counter grows by the number of such specs. The check is the first
  thing done when a record in scope is finalized.
\<close>

theorem C6_required_fields_check:
  assumes "resolve_type (requiredFields cfg) (currentType s) = Some (Inr (t, specs))"
  shows "\<exists>s'. check_required cfg s = Some (Inr s') \<and>
           subproblems s' = subproblems s @
             map (\<lambda>field. (MissingField, t @ '': missing field '' @ sq @ field @ sq))
               (filter (\<lambda>field. \<not> (\<exists>f \<in> set (py_split ''/'' field). f \<in> set (fields_list s))) specs) \<and>
           counterMissingFields s' = counterMissingFields s +
             length (filter (\<lambda>field. \<not> (\<exists>f \<in> set (py_split ''/'' field). f \<in> set (fields_list s))) specs) \<and>
           (in_scope cfg s \<longrightarrow>
              finalize cfg s = Some (Inr (emit cfg (check_url_and_doi (check_urldate_given s')))))"
proof -
  have "requiredFields cfg (currentType s) \<noteq> None"
    using resolve_type_Inr_in_schema [OF assms] .
  then show ?thesis
    using assms required_loop [of specs "s\<lparr>currentType := t\<rparr>"]
    by (simp add: check_required_def finalize_def satisfied_iff)
qed


lemma resolve_type_conference:
  "resolve_type default_requiredFields ''conference'' =
     Some (Inr (''inproceedings'', [''author'', ''title'', ''booktitle'', ''year'']))"
  by (subst resolve_type.simps, simp add: default_requiredFields_def,
      subst resolve_type.simps, simp add: default_requiredFields_def)

theorem C6_required_fields_check_witness:
  "resolve_type (requiredFields (example_config {}))
     (currentType (initial_state\<lparr>currentType := ''conference'', fields_list := [''author'', ''title'']\<rparr>)) =
     Some (Inr (''inproceedings'', [''author'', ''title'', ''booktitle'', ''year''])) \<and>
   outcome counterMissingFields
     (check_required (example_config {})
        (initial_state\<lparr>currentType := ''conference'', fields_list := [''author'', ''title'']\<rparr>)) =
     Some (Inr 2)"
proof -
  have r: "resolve_type (requiredFields (example_config {}))
     (currentType (initial_state\<lparr>currentType := ''conference'', fields_list := [''author'', ''title'']\<rparr>)) =
     Some (Inr (''inproceedings'', [''author'', ''title'', ''booktitle'', ''year'']))"
    using resolve_type_conference by (simp add: example_config_def)
  show ?thesis
    using r C6_required_fields_check [OF r]
    unfolding outcome_Inr_iff
    by (auto simp: initial_state_def)
qed

section \<open>The year rule\<close>

lemma py_int_null: "py_int lim ''null'' = None"
  by (simp add: py_int_def is_int_space_def is_digit_def py_ord_def)

lemma py_str_minyear: "py_str minyear = ''1900''"
  by code_simp

lemma in_scope_completeEntry [simp]: "in_scope cfg (s\<lparr>completeEntry := x\<rparr>) = in_scope cfg s"
  by (simp add: in_scope_def)

text \<open>
  C8. A field line of a record in scope whose field name is \<open>year\<close>, with the value
  \<open>v\<close> (the text after \<open>=\<close> without surrounding braces, blanks and commas), adds to the
  record's problems: one flawed-name problem exactly when \<open>v\<close> does not parse, by
  \<open>int\<close>, as an integer \<open>y\<close> with \<open>1900 < y\<close> and \<open>y\<close> at most the current year plus one (the message
  quotes \<open>v\<close> when it does not parse, and gives the range otherwise); and, apart from
  that, one flawed-name problem exactly when \<open>v\<close> is not a substring of the record's
  identifier. The flawed-name counter grows by the number of the two that are raised;
  nothing else is raised but the missing-field problem of the value \<open>null\<close>.
\<close>

theorem C8_year_rule:
  assumes "in_scope cfg s" and "CHR ''='' \<in> set line"
    and "py_split ''='' line = f # w # rest" and "py_lower (py_strip_ws f) = ''year''"
    and "v = py_strip (''{} ,'' @ nl) w"
  shows "\<exists>s'. content_line cfg line s = Inr s' \<and>
     subproblems s' = subproblems s @
       (if v = ''null'' then [(MissingField, ''value of field year is null'')] else []) @
       (if \<exists>y. py_int (int_max_str_digits cfg) v = Some y \<and> 1900 < y \<and> y \<le> int (this_year cfg) + 1 then []
        else [(FlawedName,
               if py_int (int_max_str_digits cfg) v = None then ''failed to parse year '' @ sq @ v @ sq
               else ''year must be in range of (1900, '' @ py_str (this_year cfg + 1) @ '')'')]) @
       (if py_in v (currentId s) then [] else [(FlawedName, ''year is not part of bib-key'')]) \<and>
     counterFlawedNames s' = counterFlawedNames s +
       (if \<exists>y. py_int (int_max_str_digits cfg) v = Some y \<and> 1900 < y \<and> y \<le> int (this_year cfg) + 1 then 0 else 1) +
       (if py_in v (currentId s) then 0 else 1)"
proof -
  have v: "py_strip (CHR ''{'' # CHR ''}'' # CHR '' '' # CHR '','' # nl) w = v"
    using assms(5) by simp
  show ?thesis
    using assms(1,2)
    unfolding content_line_def check_field_def assms(3)
    by (cases "py_int (int_max_str_digits cfg) v")
      (auto simp: assms(4) v Let_def check_year_def check_year_range_def check_doi_def
        check_proceedings_pages_def check_journal_abbrev_def minyear_def maxyear_def
        py_str_minyear [unfolded minyear_def] py_int_null)
qed


theorem C8_year_rule_witness:
  "in_scope (example_config {}) (initial_state\<lparr>currentId := ''smith2020foo''\<rparr>) \<and>
   py_int 4300 ''2050'' = Some 2050 \<and>
   map_sum id (\<lambda>s. (subproblems s, counterFlawedNames s))
     (content_line (example_config {}) ''  year = {2050},''
        (initial_state\<lparr>currentId := ''smith2020foo''\<rparr>)) =
   Inr ([(FlawedName, ''year must be in range of (1900, 2025)''),
         (FlawedName, ''year is not part of bib-key'')], 2)"
proof -
  have sc: "in_scope (example_config {}) (initial_state\<lparr>currentId := ''smith2020foo''\<rparr>)"
    by (simp add: in_scope_def example_config_def)
  have eq: "CHR ''='' \<in> set ''  year = {2050},''"
    by simp
  have sp: "py_split ''='' ''  year = {2050},'' = ''  year '' # '' {2050},'' # []"
    by simp
  have f: "py_lower (py_strip_ws ''  year '') = ''year''"
    by code_simp
  have v: "''2050'' = py_strip (''{} ,'' @ nl) '' {2050},''"
    by code_simp
  have i: "py_int 4300 ''2050'' = Some 2050"
    by code_simp
  have k: "\<not> py_in ''2050'' ''smith2020foo''"
    by code_simp
  have y: "py_str 2025 = ''2025''"
    by code_simp
  have t: "this_year (example_config {}) = 2024" "int_max_str_digits (example_config {}) = 4300"
    by (simp_all add: example_config_def)
  show ?thesis
    using sc i C8_year_rule [OF sc eq sp f v]
    by (auto simp: i k y t initial_state_def)
qed


text \<open>
  Two texts that \<open>int\<close> refuses: digits beyond the limit, and a number behind U+001F,
  which \<open>str.strip()\<close> would drop and \<open>int\<close> does not.
\<close>

lemma py_int_over_limit:
  assumes "0 < lim" and "list_all is_digit s" and "lim < length s"
  shows "py_int lim s = None"
proof (cases s)
  case Nil
  with assms show ?thesis by simp
next
  case (Cons d ds)
  with assms(2) have d: "is_digit d"
    by simp
  then have n: "\<not> is_int_space d" "d \<noteq> CHR ''-''" "d \<noteq> CHR ''+''"
    by (auto simp: is_digit_def is_int_space_def py_ord_def)
  have l: "\<not> is_int_space (last s)" if "s \<noteq> []"
  proof -
    from that have "last s \<in> set s"
      by simp
    with assms(2) have "is_digit (last s)"
      by (simp add: list_all_iff)
    then show ?thesis
      by (auto simp: is_digit_def is_int_space_def)
  qed
  have "dropWhile is_int_space s = s"
    using Cons n by simp
  moreover have "dropWhile is_int_space (rev s) = rev s"
  proof -
    have "s \<noteq> []"
      using Cons by simp
    then have e: "rev s = last s # rev (butlast s)"
      by (metis append_butlast_last_id rev.simps(2) rev_append append_Cons append_Nil rev.simps(1))
    show ?thesis
      unfolding e using l [OF \<open>s \<noteq> []\<close>] by simp
  qed
  moreover have "filter is_digit s = s"
    using assms(2) by (simp add: list_all_iff)
  ultimately show ?thesis
    using assms(1,3) d n Cons by (simp add: py_int_def Let_def)
qed

lemma py_int_separator: "py_int lim (CHR 0x1F # ''2020'') = None"
  by (simp add: py_int_def is_int_space_def is_digit_def py_ord_def)

lemma py_int_padded: "py_int 4300 (replicate 4300 (CHR ''0'') @ ''2020'') = None"
  by (rule py_int_over_limit) (simp_all add: is_digit_def py_ord_def list_all_iff)

section \<open>The surname key\<close>

lemma is_ascii_iff: "is_ascii s \<longleftrightarrow> (\<forall>c \<in> set s. py_ord c < 128)"
  by (simp add: is_ascii_def list_all_iff)

lemma py_replace_single:
  "py_replace [c] new s = concat (map (\<lambda>x. if x = c then new else [x]) s)"
  by (induction s) auto

lemma py_replace_delete: "py_replace [c] [] s = filter (\<lambda>x. x \<noteq> c) s"
  by (induction s) auto

lemma py_replace_single_append:
  "py_replace [c] new (a @ b) = py_replace [c] new a @ py_replace [c] new b"
  by (simp add: py_replace_single)

lemma substitutions_of_char:
  "py_replace [CHR 0xFC] ''ue'' (py_replace [CHR 0xF6] ''oe'' (py_replace [CHR 0xE4] ''ae'' [c])) =
     digraph c"
proof -
  consider "c = CHR 0xE4" | "c = CHR 0xF6" | "c = CHR 0xFC"
    | "c \<noteq> CHR 0xE4" "c \<noteq> CHR 0xF6" "c \<noteq> CHR 0xFC"
    by blast
  then show ?thesis
    by cases (simp_all add: digraph_def)
qed

lemma substitutions_are_digraphs:
  "py_replace [CHR 0xFC] ''ue'' (py_replace [CHR 0xF6] ''oe'' (py_replace [CHR 0xE4] ''ae'' n)) =
     concat (map digraph n)"
proof (induction n)
  case Nil
  show ?case by simp
next
  case (Cons c n)
  have "py_replace [CHR 0xFC] ''ue'' (py_replace [CHR 0xF6] ''oe'' (py_replace [CHR 0xE4] ''ae'' ([c] @ n))) =
      py_replace [CHR 0xFC] ''ue'' (py_replace [CHR 0xF6] ''oe'' (py_replace [CHR 0xE4] ''ae'' [c])) @
      py_replace [CHR 0xFC] ''ue'' (py_replace [CHR 0xF6] ''oe'' (py_replace [CHR 0xE4] ''ae'' n))"
    by (simp only: py_replace_single_append)
  then show ?case
    by (simp only: substitutions_of_char Cons.IH append_Cons append_Nil list.map concat.simps)
qed

lemma deletions_are_filter:
  "py_replace sq [] (py_replace ''.'' [] (py_replace '' '' [] s)) =
     filter (\<lambda>c. c \<noteq> CHR '' '' \<and> c \<noteq> CHR ''.'' \<and> c \<noteq> CHR 0x27) s"
  by (simp add: py_replace_delete sq_def conj_commute conj_left_commute)

lemma normalize_lastname_refines: "normalize_lastname ud n = spec_surname_key ud n"
  by (simp only: normalize_lastname_def spec_surname_key_def substitutions_are_digraphs
      deletions_are_filter py_lower_def)

lemma mueller_substituted:
  "concat (map digraph ([CHR ''M'', CHR 0xFC] @ ''ller'')) = ''Mueller''"
  by (simp add: digraph_def)

lemma angstroem_substituted:
  "concat (map digraph ([CHR 0xC5] @ ''ngstr'' @ [CHR 0xF6] @ ''m'')) = CHR 0xC5 # ''ngstroem''"
  by (simp add: digraph_def)

lemma mueller_lowered:
  "filter (\<lambda>c. c \<noteq> CHR '' '' \<and> c \<noteq> CHR ''.'' \<and> c \<noteq> CHR 0x27) (map lower_char ''Mueller'') = ''mueller''"
  by code_simp

lemma angstroem_lowered:
  "filter (\<lambda>c. c \<noteq> CHR '' '' \<and> c \<noteq> CHR ''.'' \<and> c \<noteq> CHR 0x27) (map lower_char ''Angstroem'') = ''angstroem''"
  by code_simp

text \<open>
  C9. The surname key is built in this order: the three characters U+00E4, U+00F6 and
  U+00FC are replaced by \<open>ae\<close>, \<open>oe\<close> and \<open>ue\<close>; \<open>unidecode\<close> is applied; the text is
  lowercased; blanks, periods and apostrophes are removed. For every surname and every
  transliteration the script's key is the key in the words of the specification,
  \<open>spec_surname_key\<close>. \<open>unidecode\<close> is a library function: what is used of it is that it
  returns ASCII text, returns ASCII text unchanged, and turns U+00C5 into \<open>A\<close>. Then
  the key of Muller spelled with U+00FC is \<open>mueller\<close>, the key of Angstrom spelled with
  U+00C5 and U+00F6 is \<open>angstroem\<close>, ASCII without an uppercase letter, and so is every
  key, which also holds no blank, period or apostrophe.
\<close>

theorem C9_surname_normalization:
  assumes "\<And>s. is_ascii s \<Longrightarrow> ud s = s" and "\<And>s. is_ascii (ud s)"
    and "ud (CHR 0xC5 # ''ngstroem'') = ''Angstroem''"
  shows "(\<forall>m. normalize_lastname ud m = spec_surname_key ud m) \<and>
         normalize_lastname ud ([CHR ''M'', CHR 0xFC] @ ''ller'') = ''mueller'' \<and>
         normalize_lastname ud ([CHR 0xC5] @ ''ngstr'' @ [CHR 0xF6] @ ''m'') = ''angstroem'' \<and>
         is_ascii (normalize_lastname ud ([CHR 0xC5] @ ''ngstr'' @ [CHR 0xF6] @ ''m'')) \<and>
         \<not> list_ex is_upper (normalize_lastname ud ([CHR 0xC5] @ ''ngstr'' @ [CHR 0xF6] @ ''m'')) \<and>
         (\<forall>c \<in> set (normalize_lastname ud n).
            py_ord c < 128 \<and> \<not> is_upper c \<and> c \<noteq> CHR '' '' \<and> c \<noteq> CHR ''.'' \<and> c \<noteq> CHR 0x27)"
proof -
  have gen: "py_ord c < 128 \<and> \<not> is_upper c \<and> c \<noteq> CHR '' '' \<and> c \<noteq> CHR ''.'' \<and> c \<noteq> CHR 0x27"
    if "c \<in> set (normalize_lastname ud m)" for c m
  proof -
    from that obtain d where d: "d \<in> set (ud (concat (map digraph m)))"
      and c: "c = lower_char d" "c \<noteq> CHR '' ''" "c \<noteq> CHR ''.''" "c \<noteq> CHR 0x27"
      by (auto simp: normalize_lastname_refines spec_surname_key_def)
    from d assms(2) have "py_ord d < 128"
      by (auto simp: is_ascii_iff)
    with c show ?thesis
      by (simp add: lower_char_ascii lower_char_not_upper)
  qed
  have "is_ascii ''Mueller''"
    by (simp add: is_ascii_def py_ord_def)
  then have "ud ''Mueller'' = ''Mueller''"
    by (rule assms(1))
  then have m: "normalize_lastname ud ([CHR ''M'', CHR 0xFC] @ ''ller'') = ''mueller''"
    unfolding normalize_lastname_refines spec_surname_key_def mueller_substituted
    by (simp only: mueller_lowered)
  have a: "normalize_lastname ud ([CHR 0xC5] @ ''ngstr'' @ [CHR 0xF6] @ ''m'') = ''angstroem''"
    unfolding normalize_lastname_refines spec_surname_key_def angstroem_substituted assms(3)
    by (simp only: angstroem_lowered)
  from gen have r: "\<forall>c \<in> set (normalize_lastname ud m).
      py_ord c < 128 \<and> \<not> is_upper c \<and> c \<noteq> CHR '' '' \<and> c \<noteq> CHR ''.'' \<and> c \<noteq> CHR 0x27" for m
    by blast
  have 4: "is_ascii (normalize_lastname ud ([CHR 0xC5] @ ''ngstr'' @ [CHR 0xF6] @ ''m''))"
    using r [of "[CHR 0xC5] @ ''ngstr'' @ [CHR 0xF6] @ ''m''"] unfolding is_ascii_iff by blast
  have 5: "\<not> list_ex is_upper (normalize_lastname ud ([CHR 0xC5] @ ''ngstr'' @ [CHR 0xF6] @ ''m''))"
    using r [of "[CHR 0xC5] @ ''ngstr'' @ [CHR 0xF6] @ ''m''"] unfolding list_ex_iff by blast
  from m a 4 5 r [of n] show ?thesis
    by (intro conjI allI normalize_lastname_refines)
qed

lemma unidecode_latin1_char_ascii: "d \<in> set (unidecode_latin1_char c) \<Longrightarrow> py_ord d < 128"
  by (auto simp: unidecode_latin1_char_def Let_def py_ord_def split: if_splits)

lemma unidecode_latin1_ascii_out: "is_ascii (unidecode_latin1 s)"
  using unidecode_latin1_char_ascii by (auto simp: is_ascii_iff unidecode_latin1_def)

lemma unidecode_latin1_ascii_in: "is_ascii s \<Longrightarrow> unidecode_latin1 s = s"
  by (induction s) (simp_all add: is_ascii_def unidecode_latin1_def unidecode_latin1_char_def)

lemma unidecode_latin1_angstroem: "unidecode_latin1 (CHR 0xC5 # ''ngstroem'') = ''Angstroem''"
  by code_simp

theorem C9_surname_normalization_witness:
  "normalize_lastname unidecode_latin1 ([CHR ''M'', CHR 0xFC] @ ''ller'') = ''mueller'' \<and>
   normalize_lastname unidecode_latin1 ([CHR 0xC5] @ ''ngstr'' @ [CHR 0xF6] @ ''m'') = ''angstroem'' \<and>
   normalize_lastname unidecode_latin1 ''O'Neil Jr.'' = spec_surname_key unidecode_latin1 ''O'Neil Jr.'' \<and>
   spec_surname_key unidecode_latin1 ''O'Neil Jr.'' = ''oneiljr''"
proof -
  have k: "spec_surname_key unidecode_latin1 ''O'Neil Jr.'' = ''oneiljr''"
    by code_simp
  have a: "unidecode_latin1 s = s" if "is_ascii s" for s
    using that by (rule unidecode_latin1_ascii_in)
  have b: "is_ascii (unidecode_latin1 s)" for s
    by (rule unidecode_latin1_ascii_out)
  have t: "(\<forall>m. normalize_lastname unidecode_latin1 m = spec_surname_key unidecode_latin1 m) \<and>
      normalize_lastname unidecode_latin1 ([CHR ''M'', CHR 0xFC] @ ''ller'') = ''mueller'' \<and>
      normalize_lastname unidecode_latin1 ([CHR 0xC5] @ ''ngstr'' @ [CHR 0xF6] @ ''m'') = ''angstroem''"
    using C9_surname_normalization [of unidecode_latin1 "''O'Neil Jr.''", OF a b unidecode_latin1_angstroem]
    by blast
  from t have 1: "normalize_lastname unidecode_latin1 ([CHR ''M'', CHR 0xFC] @ ''ller'') = ''mueller''"
    by (elim conjE)
  from t have 2: "normalize_lastname unidecode_latin1 ([CHR 0xC5] @ ''ngstr'' @ [CHR 0xF6] @ ''m'') =
      ''angstroem''"
    by (elim conjE)
  from t have 3: "normalize_lastname unidecode_latin1 ''O'Neil Jr.'' =
      spec_surname_key unidecode_latin1 ''O'Neil Jr.''"
    by (elim conjE allE)
  show ?thesis
    by (intro conjI 1 2 3 k)
qed

section \<open>A usage set that matches no record\<close>

lemma not_in_scope:
  assumes "used_cits cfg \<noteq> {}" and "\<forall>c \<in> used_cits cfg. \<exists>ch \<in> set c. is_upper ch"
    and "\<forall>c \<in> set (currentId s). \<not> is_upper c"
  shows "\<not> in_scope cfg s"
  using assms by (auto simp: in_scope_def)

lemma finalize_out_of_scope:
  assumes "\<not> in_scope cfg s" and "fields_list s = []"
  shows "finalize cfg s = Some (Inr (s\<lparr>subproblems := []\<rparr>))"
  using assms
  by (simp add: finalize_def check_urldate_given_def check_url_and_doi_def emit_def in_scope_def)

lemma start_record_inv:
  assumes "start_record line s = Inr s'" and "problems s = []" and "counterMissingFields s = 0"
    and "counterWrongTypes s = 0" and "console s = []"
  shows "out_of_scope_inv s'"
proof -
  obtain t x r where sp: "py_split ''{'' line = t # x # r"
    using assms(1) by (auto simp: start_record_def split: list.splits)
  show ?thesis
    using assms lowered_id_no_upper [of _ "py_rstrip ('','' @ nl) x"]
    unfolding start_record_def sp out_of_scope_inv_def
    by (auto simp: Let_def split: if_splits)
qed

lemma step_out_of_scope:
  assumes "used_cits cfg \<noteq> {}" and "\<forall>c \<in> used_cits cfg. \<exists>ch \<in> set c. is_upper ch"
    and "out_of_scope_inv s" and "step cfg s raw = Some (Inr s')"
  shows "out_of_scope_inv s'"
proof -
  let ?s0 = "s\<lparr>lineNo := lineNo s + 1\<rparr>"
  have ns: "\<not> in_scope cfg ?s0"
    using not_in_scope [OF assms(1,2), of ?s0] assms(3) by (simp add: out_of_scope_inv_def)
  show ?thesis
  proof (cases "prefix ''@'' (py_strip nl raw)")
    case True
    have "finalize cfg ?s0 = Some (Inr (?s0\<lparr>subproblems := []\<rparr>))"
      using finalize_out_of_scope [OF ns] assms(3) by (simp add: out_of_scope_inv_def)
    with True assms(4) have sr: "start_record (py_strip nl raw) (?s0\<lparr>subproblems := []\<rparr>) = Inr s'"
      by (simp add: step_def Let_def)
    from assms(3) have "problems (?s0\<lparr>subproblems := []\<rparr>) = []"
      and "counterMissingFields (?s0\<lparr>subproblems := []\<rparr>) = 0"
      and "counterWrongTypes (?s0\<lparr>subproblems := []\<rparr>) = 0"
      and "console (?s0\<lparr>subproblems := []\<rparr>) = []"
      by (simp_all add: out_of_scope_inv_def)
    with sr show ?thesis
      by (rule start_record_inv)
  next
    case False
    with assms(4) ns have "s' = (if py_strip nl raw \<noteq> []
        then ?s0\<lparr>completeEntry := completeEntry ?s0 @ py_strip nl raw @ ''<br />''\<rparr> else ?s0)"
      by (auto simp: step_def content_line_def Let_def in_scope_def)
    with assms(3) show ?thesis
      by (auto simp: out_of_scope_inv_def)
  qed
qed

lemma run_lines_out_of_scope:
  assumes "used_cits cfg \<noteq> {}" and "\<forall>c \<in> used_cits cfg. \<exists>ch \<in> set c. is_upper ch"
  shows "out_of_scope_inv s \<Longrightarrow> run_lines cfg s ls = Some (Inr s') \<Longrightarrow> out_of_scope_inv s'"
proof (induction ls arbitrary: s)
  case Nil
  then show ?case by simp
next
  case (Cons l ls)
  from Cons.prems(2) obtain s1 where s1: "step cfg s l = Some (Inr s1)"
    and r: "run_lines cfg s1 ls = Some (Inr s')"
    by (auto split: option.splits sum.splits)
  from step_out_of_scope [OF assms Cons.prems(1) s1] have "out_of_scope_inv s1" .
  from Cons.IH [OF this r] show ?case .
qed

text \<open>
  C10. Identifiers of records are lowercased when they are read; the identifiers of the
  usage set are taken from the aux file as they are written. When the usage set is not
  empty and each of its identifiers holds an uppercase letter, no record is ever in
  scope: at the end of every run that returns, no entry has been emitted, no field has
  been recorded, nothing is counted as a missing field or a wrong type, and the only
  problems held are those raised where a record starts (non-unique identifier, and
  missing bibkey for an empty identifier), which belong to neither the record-level nor
  the field-level rules.
\<close>

theorem C10_uppercase_usage_set_excludes_all:
  assumes "used_cits cfg \<noteq> {}" and "\<forall>c \<in> used_cits cfg. \<exists>ch \<in> set c. is_upper ch"
    and "run cfg ls = Some (Inr s)"
  shows "currentId s \<notin> used_cits cfg \<and> \<not> in_scope cfg s \<and> problems s = [] \<and> fields_list s = [] \<and>
         counterMissingFields s = 0 \<and> counterWrongTypes s = 0 \<and>
         (\<forall>p \<in> set (subproblems s). fst p = NonUniqueId \<or> fst p = FlawedName \<and> currentId s = [])"
proof -
  have "out_of_scope_inv initial_state"
    by (simp add: out_of_scope_inv_def initial_state_def)
  from run_lines_out_of_scope [OF assms(1,2) this assms(3) [unfolded run_def]]
  have i: "out_of_scope_inv s" .
  then have "\<not> in_scope cfg s"
    using not_in_scope [OF assms(1,2), of s] by (simp add: out_of_scope_inv_def)
  with i show ?thesis
    by (auto simp: out_of_scope_inv_def in_scope_def)
qed

lemma read_aux_Smith2020:
  "read_aux (Some [CHR 0x5C # ''citation{Smith2020}'' @ nl]) = Inr {''Smith2020''}"
  by code_simp

lemma run_Smith2020:
  "outcome (\<lambda>s. currentId s) (run (example_config {''Smith2020''})
     [''@article{Smith2020,'', ''  year = {1800},'', ''@misc{x,'']) = Some (Inr ''x'')"
  by code_simp

theorem C10_uppercase_usage_set_witness:
  "read_aux (Some [CHR 0x5C # ''citation{Smith2020}'' @ nl]) = Inr {''Smith2020''} \<and>
   outcome (\<lambda>s. (problems s, fields_list s, counterMissingFields s, counterWrongTypes s))
     (run (example_config {''Smith2020''}) [''@article{Smith2020,'', ''  year = {1800},'', ''@misc{x,'']) =
   Some (Inr ([], [], 0, 0))"
proof -
  obtain s where s: "run (example_config {''Smith2020''})
     [''@article{Smith2020,'', ''  year = {1800},'', ''@misc{x,''] = Some (Inr s)"
    using run_Smith2020 unfolding outcome_Inr_iff by auto
  have a: "used_cits (example_config {''Smith2020''}) \<noteq> {}"
    by (simp add: example_config_def)
  have b: "\<forall>c \<in> used_cits (example_config {''Smith2020''}). \<exists>ch \<in> set c. is_upper ch"
    by (simp add: example_config_def is_upper_def py_ord_def)
  show ?thesis
    using C10_uppercase_usage_set_excludes_all [OF a b s] read_aux_Smith2020 s
    unfolding outcome_Inr_iff by simp
qed

section \<open>Counters and messages\<close>

lemma run_repeated_id_filtered:
  "outcome (\<lambda>s. (counter_of NonUniqueId s, emitted NonUniqueId s, pending NonUniqueId s, emitted_ids s))
     (run (example_config {''b''}) repeated_id_lines) = Some (Inr (1, 0, 0, [''b'']))"
  by code_simp

lemma run_repeated_id_unfiltered:
  "outcome (\<lambda>s. (counter_of NonUniqueId s, emitted NonUniqueId s))
     (run (example_config {}) repeated_id_lines) = Some (Inr (1, 1))"
  by code_simp

text \<open>
  C2. Each counter should equal the number of emitted messages of its category, also
  under a usage filter. The script counts a problem raised where a record starts
  (non-unique identifier, missing bibkey) whether or not the record is in the usage set,
  and drops the message of a record outside it: with the usage set \<open>{b}\<close> and the records
  \<open>a\<close>, \<open>a\<close>, \<open>b\<close>, \<open>c\<close>, the second \<open>a\<close> is counted as a non-unique identifier, and no
  message of that category is emitted or still held at the end (the entry of \<open>b\<close> is the
  only one emitted). Without the filter the same input gives one count and one emitted
  message.
\<close>

theorem C2_counted_but_not_emitted:
  "outcome (counter_of NonUniqueId) (run (example_config {''b''}) repeated_id_lines) = Some (Inr 1) \<and>
   outcome (emitted NonUniqueId) (run (example_config {''b''}) repeated_id_lines) = Some (Inr 0) \<and>
   outcome (pending NonUniqueId) (run (example_config {''b''}) repeated_id_lines) = Some (Inr 0) \<and>
   outcome emitted_ids (run (example_config {''b''}) repeated_id_lines) = Some (Inr [''b'']) \<and>
   outcome (counter_of NonUniqueId) (run (example_config {}) repeated_id_lines) = Some (Inr 1) \<and>
   outcome (emitted NonUniqueId) (run (example_config {}) repeated_id_lines) = Some (Inr 1)"
  using run_repeated_id_filtered run_repeated_id_unfiltered unfolding outcome_Inr_iff by auto

section \<open>The order of the report\<close>

lemma append_le_append: "p @ x \<le> p @ y \<longleftrightarrow> x \<le> y" for x y :: "'a::linorder list"
  by (induction p) simp_all

lemma append_less_append: "p @ x < p @ y \<longleftrightarrow> x < y" for x y :: "'a::linorder list"
  by (induction p) simp_all

lemma parallel_le_less:
  fixes a b :: "'a::linorder list"
  assumes "\<not> prefix a b" and "\<not> prefix b a" and "p @ a @ x \<le> p @ b @ y"
  shows "a < b"
proof -
  from assms(1,2) have "a \<parallel> b"
    by (simp add: parallel_def)
  then obtain u c a' d b' where d: "c \<noteq> d" "a = u @ c # a'" "b = u @ d # b'"
    using parallel_decomp by blast
  from assms(3) have "(p @ u) @ c # (a' @ x) \<le> (p @ u) @ d # (b' @ y)"
    by (simp add: d)
  then have "c # (a' @ x) \<le> d # (b' @ y)"
    by (simp only: append_le_append)
  with d(1) have "c < d"
    by simp
  then show ?thesis
    by (simp add: d append_less_append)
qed

lemma render_shape:
  "\<exists>x. render e = ''<div id='' @ sq @ entry_id e @ x"
  by (simp add: render_def Let_def)

text \<open>
  C7. The report's entries are the emitted entries, sorted by a stable sort whose key is
  the whole rendered text of an entry, compared as a string. That text starts with
  \<open><div id='\<close>, the identifier, an apostrophe and the severity. So two entries of
  which neither identifier is a prefix of the other stand in the order of their
  identifiers; for identifiers that are equal or a prefix of one another the order is
  decided by what follows the identifier in the text.
\<close>

theorem C7_report_sorted_by_rendered_text:
  "sorted (map render (report s)) \<and> mset (report s) = mset (problems s) \<and>
   (\<forall>k. filter (\<lambda>e. render e = k) (report s) = filter (\<lambda>e. render e = k) (problems s)) \<and>
   (\<forall>i j. i < j \<and> j < length (report s) \<and>
      \<not> prefix (entry_id (report s ! i)) (entry_id (report s ! j)) \<and>
      \<not> prefix (entry_id (report s ! j)) (entry_id (report s ! i)) \<longrightarrow>
      entry_id (report s ! i) < entry_id (report s ! j))"
proof -
  have so: "sorted (map render (report s))"
    by (simp add: report_def)
  have "entry_id (report s ! i) < entry_id (report s ! j)"
    if "i < j" "j < length (report s)"
      "\<not> prefix (entry_id (report s ! i)) (entry_id (report s ! j))"
      "\<not> prefix (entry_id (report s ! j)) (entry_id (report s ! i))" for i j
  proof -
    from so that(1,2) have le: "render (report s ! i) \<le> render (report s ! j)"
      using sorted_nth_mono [of "map render (report s)" i j] by simp
    obtain x y where "render (report s ! i) = (''<div id='' @ sq) @ entry_id (report s ! i) @ x"
      and "render (report s ! j) = (''<div id='' @ sq) @ entry_id (report s ! j) @ y"
      using render_shape [of "report s ! i"] render_shape [of "report s ! j"] by auto
    with le show ?thesis
      using parallel_le_less [OF that(3,4)] by metis
  qed
  then show ?thesis
    using so by (auto simp: report_def sort_key_stable)
qed

lemma render_shape_severity:
  "\<exists>x. render e = (''<div id='' @ sq) @ entry_id e @ sq @ '' class='problem severe'' @
          py_str (length (entry_subproblems e)) @ x"
  by (simp add: render_def Let_def)

lemma render_less_by_id:
  assumes "\<And>x y. entry_id a @ sq @ x < entry_id b @ sq @ y"
  shows "render a < render b"
proof -
  obtain x y where "render a = (''<div id='' @ sq) @ entry_id a @ sq @ x"
    and "render b = (''<div id='' @ sq) @ entry_id b @ sq @ y"
    using render_shape_severity [of a] render_shape_severity [of b] by auto
  then show ?thesis
    using assms [of x y] by (simp only: append_less_append)
qed

lemma render_less_by_severity:
  assumes "entry_id a = entry_id b"
    and "\<And>x y. py_str (length (entry_subproblems a)) @ x < py_str (length (entry_subproblems b)) @ y"
  shows "render a < render b"
proof -
  obtain x y where "render a = ((''<div id='' @ sq) @ entry_id a @ sq @ '' class='problem severe'') @
          py_str (length (entry_subproblems a)) @ x"
    and "render b = ((''<div id='' @ sq) @ entry_id a @ sq @ '' class='problem severe'') @
          py_str (length (entry_subproblems b)) @ y"
    using render_shape_severity [of a] render_shape_severity [of b] assms(1) by auto
  then show ?thesis
    using assms(2) [of x y] by (simp only: append_less_append)
qed

lemma run_ampersand:
  "outcome (map id_and_severity \<circ> problems)
     (run (example_config {})
        ampersand_lines) =
   Some (Inr [([], 0), (''smith'', 0), (''smith&jones'', 0), (''adams'', 0)])"
  by code_simp

lemma run_duplicate:
  "outcome (map id_and_severity \<circ> problems)
     (run (example_config {}) dup_lines) =
   Some (Inr [([], 0), (''dup'', 2), (''dup'', 1)])"
  by code_simp

lemma report_ampersand:
  assumes "map id_and_severity (problems s) =
    [([], 0), (''smith'', 0), (''smith&jones'', 0), (''adams'', 0)]"
  shows "map id_and_severity (report s) =
    [([], 0), (''adams'', 0), (''smith&jones'', 0), (''smith'', 0)]"
proof -
  from assms obtain e0 e1 e2 e3 where p: "problems s = [e0, e1, e2, e3]"
    and i: "id_and_severity e0 = ([], 0)" "id_and_severity e1 = (''smith'', 0)"
      "id_and_severity e2 = (''smith&jones'', 0)" "id_and_severity e3 = (''adams'', 0)"
    by (auto simp: map_eq_Cons_conv)
  from i have ids: "entry_id e0 = []" "entry_id e1 = ''smith''" "entry_id e2 = ''smith&jones''"
    "entry_id e3 = ''adams''"
    by (simp_all add: id_and_severity_def)
  have a: "render e0 < render e3"
    by (rule render_less_by_id) (simp add: ids sq_def)
  have b: "render e3 < render e2"
    by (rule render_less_by_id) (simp add: ids sq_def)
  have c: "render e2 < render e1"
    by (rule render_less_by_id) (simp add: ids sq_def)
  from a b c have "\<not> render e2 \<le> render e3" "\<not> render e1 \<le> render e3" "\<not> render e1 \<le> render e2"
    "render e0 \<le> render e3"
    by auto
  then have "report s = [e0, e3, e2, e1]"
    by (simp add: report_def p)
  then show ?thesis
    by (simp add: i)
qed

lemma py_str_1_2: "py_str (Suc 0) = ''1''" "py_str 2 = ''2''"
  by code_simp+

lemma report_duplicate:
  assumes "map id_and_severity (problems s) = [([], 0), (''dup'', 2), (''dup'', 1)]"
  shows "map id_and_severity (report s) = [([], 0), (''dup'', 1), (''dup'', 2)]"
proof -
  from assms obtain e0 e1 e2 where p: "problems s = [e0, e1, e2]"
    and i: "id_and_severity e0 = ([], 0)" "id_and_severity e1 = (''dup'', 2)"
      "id_and_severity e2 = (''dup'', 1)"
    by (auto simp: map_eq_Cons_conv)
  from i have ids: "entry_id e0 = []" "entry_id e1 = ''dup''" "entry_id e2 = ''dup''"
    "length (entry_subproblems e1) = 2" "length (entry_subproblems e2) = Suc 0"
    by (simp_all add: id_and_severity_def)
  have a: "render e0 < render e2"
    by (rule render_less_by_id) (simp add: ids sq_def)
  have b: "render e2 < render e1"
    by (rule render_less_by_severity) (simp_all add: ids py_str_1_2)
  from a b have "\<not> render e1 \<le> render e2" "render e0 \<le> render e2"
    by auto
  then have "report s = [e0, e2, e1]"
    by (simp add: report_def p)
  then show ?thesis
    by (simp add: i)
qed

lemma outcome_comp:
  "outcome (f \<circ> g) r = Some (Inr y) \<longleftrightarrow> (\<exists>s. r = Some (Inr s) \<and> f (g s) = y)"
  by (simp add: outcome_Inr_iff)

text \<open>
  The claim of C7 as it stands fails twice. The identifier \<open>smith&jones\<close> is put before
  \<open>smith\<close>, since \<open>&\<close> precedes the apostrophe that closes the identifier in the text.
  And of two entries with the identifier \<open>dup\<close> the later one, with one problem, is put
  before the earlier one, with two: the sort is not a stable sort on the identifier.
\<close>

theorem C7_identifier_order_counterexample:
  "outcome (map id_and_severity \<circ> report)
     (run (example_config {})
        ampersand_lines) =
     Some (Inr [([], 0), (''adams'', 0), (''smith&jones'', 0), (''smith'', 0)]) \<and>
   ''smith'' < ''smith&jones'' \<and>
   outcome (map id_and_severity \<circ> problems)
     (run (example_config {}) dup_lines) =
     Some (Inr [([], 0), (''dup'', 2), (''dup'', 1)]) \<and>
   outcome (map id_and_severity \<circ> report)
     (run (example_config {}) dup_lines) =
     Some (Inr [([], 0), (''dup'', 1), (''dup'', 2)])"
proof -
  from run_ampersand obtain s where s: "run (example_config {}) ampersand_lines = Some (Inr s)"
    and p: "map id_and_severity (problems s) =
      [([], 0), (''smith'', 0), (''smith&jones'', 0), (''adams'', 0)]"
    unfolding outcome_comp by auto
  from run_duplicate obtain t where t: "run (example_config {}) dup_lines = Some (Inr t)"
    and q: "map id_and_severity (problems t) = [([], 0), (''dup'', 2), (''dup'', 1)]"
    unfolding outcome_comp by auto
  have "''smith'' < ''smith&jones''"
    by simp
  then show ?thesis
    using report_ampersand [OF p] report_duplicate [OF q] q
    by (simp add: outcome_comp s t)
qed

theorem C7_report_sorted_witness:
  "outcome (map id_and_severity \<circ> report)
     (run (example_config {})
        ampersand_lines) =
     Some (Inr [([], 0), (''adams'', 0), (''smith&jones'', 0), (''smith'', 0)]) \<and>
   \<not> prefix ''adams'' ''smith&jones'' \<and> \<not> prefix ''smith&jones'' ''adams'' \<and>
   ''adams'' < ''smith&jones''"
proof -
  obtain s where s: "run (example_config {})
        ampersand_lines = Some (Inr s)"
    and p: "map id_and_severity (problems s) =
      [([], 0), (''smith'', 0), (''smith&jones'', 0), (''adams'', 0)]"
    using run_ampersand unfolding outcome_comp by auto
  have r: "map id_and_severity (report s) =
      [([], 0), (''adams'', 0), (''smith&jones'', 0), (''smith'', 0)]"
    using report_ampersand [OF p] .
  then obtain e0 e1 e2 e3 where rs: "report s = [e0, e1, e2, e3]"
    and i: "entry_id e1 = ''adams''" "entry_id e2 = ''smith&jones''"
    by (auto simp: map_eq_Cons_conv id_and_severity_def)
  have "Suc 0 < 2 \<and> 2 < length (report s) \<and>
      \<not> prefix (entry_id (report s ! Suc 0)) (entry_id (report s ! 2)) \<and>
      \<not> prefix (entry_id (report s ! 2)) (entry_id (report s ! Suc 0))"
    by (simp add: rs i)
  with C7_report_sorted_by_rendered_text [of s]
  have "entry_id (report s ! Suc 0) < entry_id (report s ! 2)"
    by blast
  then have "''adams'' < ''smith&jones''"
    by (simp add: rs i)
  then show ?thesis
    using r by (simp add: outcome_comp s)
qed

end
